theory Spec2Isabelle
  imports Complex_Main "HOL-Library.Word"
begin

unbundle bit_operations_syntax

section \<open>Platform constants and the wait-status macros\<close>

text \<open>
  \<^verbatim>\<open>arch.c\<close> is compiled against the platform's \<^verbatim>\<open><signal.h>\<close>, \<^verbatim>\<open><limits.h>\<close> and
  \<^verbatim>\<open><sys/wait.h>\<close>. The values below are those of Linux with glibc: \<^verbatim>\<open>int\<close> is 32 bits
  wide, \<^verbatim>\<open>unsigned long\<close> 64 bits, \<^verbatim>\<open>PATH_MAX\<close> is 4096 and \<^verbatim>\<open>NSIG\<close> is 65.
\<close>

definition PATH_MAX :: nat where "PATH_MAX = 4096"
definition NSIG :: nat where "NSIG = 65"
definition SIGILL :: nat where "SIGILL = 4"
definition SIGABRT :: nat where "SIGABRT = 6"
definition SIGBUS :: nat where "SIGBUS = 7"
definition SIGFPE :: nat where "SIGFPE = 8"
definition SIGSEGV :: nat where "SIGSEGV = 11"

type_synonym status = "32 word"

text \<open>\<^verbatim>\<open>#define __WTERMSIG(status) ((status) & 0x7f)\<close>\<close>

definition WTERMSIG :: "status \<Rightarrow> nat" where
  "WTERMSIG s = unat (s AND 0x7f)"

text \<open>\<^verbatim>\<open>#define __WEXITSTATUS(status) (((status) & 0xff00) >> 8)\<close>\<close>

definition WEXITSTATUS :: "status \<Rightarrow> nat" where
  "WEXITSTATUS s = unat (drop_bit 8 (s AND 0xff00))"

text \<open>\<^verbatim>\<open>#define __WIFEXITED(status) (__WTERMSIG(status) == 0)\<close>\<close>

definition WIFEXITED :: "status \<Rightarrow> bool" where
  "WIFEXITED s \<longleftrightarrow> WTERMSIG s = 0"

text \<open>
  \<^verbatim>\<open>#define __WIFSIGNALED(status) (((signed char) (((status) & 0x7f) + 1) >> 1) > 0)\<close>:
  the sum is cut to eight bits, read as a signed value and shifted arithmetically.
\<close>

definition WIFSIGNALED :: "status \<Rightarrow> bool" where
  "WIFSIGNALED s \<longleftrightarrow> 0 < drop_bit 1 (sint (ucast ((s AND 0x7f) + 1) :: 8 word))"

text \<open>\<^verbatim>\<open>#define __WIFCONTINUED(status) ((status) == __W_CONTINUED)\<close>, with \<^verbatim>\<open>__W_CONTINUED\<close> 0xffff.\<close>

definition WIFCONTINUED :: "status \<Rightarrow> bool" where
  "WIFCONTINUED s \<longleftrightarrow> s = 0xffff"

section \<open>The signal table\<close>

record sig_entry =
  important :: bool
  descr :: string

text \<open>
  \<^verbatim>\<open>arch_sigs[NSIG]\<close>: every slot starts as not important and "UNKNOWN"; five slots are
  then overridden.
\<close>

definition arch_sigs :: "sig_entry list" where
  "arch_sigs = (replicate NSIG \<lparr>important = False, descr = ''UNKNOWN''\<rparr>)
     [SIGILL := \<lparr>important = True, descr = ''SIGILL''\<rparr>,
      SIGFPE := \<lparr>important = True, descr = ''SIGFPE''\<rparr>,
      SIGSEGV := \<lparr>important = True, descr = ''SIGSEGV''\<rparr>,
      SIGBUS := \<lparr>important = True, descr = ''SIGBUS''\<rparr>,
      SIGABRT := \<lparr>important = True, descr = ''SIGABRT''\<rparr>]"

text \<open>
  Reading \<^verbatim>\<open>arch_sigs[termsig]\<close>. The array has \<^verbatim>\<open>NSIG\<close> slots; an index beyond them is
  outside the object, which the model reports as \<open>None\<close>.
\<close>

definition arch_sigs_at :: "nat \<Rightarrow> sig_entry option" where
  "arch_sigs_at i = (if i < NSIG then Some (arch_sigs ! i) else None)"

section \<open>Strings and formatting\<close>

text \<open>\<^verbatim>\<open>snprintf(buf, n, ...)\<close> stores at most \<open>n - 1\<close> characters of the formatted text.\<close>

definition snprintf :: "nat \<Rightarrow> string \<Rightarrow> string" where
  "snprintf n s = take (n - 1) s"

definition digit_char :: "nat \<Rightarrow> char" where
  "digit_char d = ''0123456789'' ! (d mod 10)"

text \<open>The decimal digits of a natural number, most significant first.\<close>

function dec_nat :: "nat \<Rightarrow> string" where
  "dec_nat n = (if n < 10 then [digit_char n] else dec_nat (n div 10) @ [digit_char n])"
  by pat_completeness auto
termination
  by (relation "measure (\<lambda>n. n)") auto

declare dec_nat.simps [simp del]

text \<open>The conversion \<^verbatim>\<open>%d\<close>.\<close>

definition fmt_d :: "int \<Rightarrow> string" where
  "fmt_d i = (if i < 0 then CHR ''-'' # dec_nat (nat (- i)) else dec_nat (nat i))"

record wallclock =
  year :: nat
  month :: nat
  day :: nat
  hour :: nat
  minute :: nat
  second :: nat

definition pad2 :: "nat \<Rightarrow> string" where
  "pad2 n = [digit_char (n div 10), digit_char n]"

definition pad4 :: "nat \<Rightarrow> string" where
  "pad4 n = [digit_char (n div 1000), digit_char (n div 100), digit_char (n div 10), digit_char n]"

text \<open>
  Modelled from the spec: \<^verbatim>\<open>util_getLocalTime\<close> (declared in \<^verbatim>\<open>util.h\<close>, defined outside
  \<^verbatim>\<open>arch.c\<close>) is missing. The spec describes it as the local-time formatter that
  "produces a fixed-width timestamp string from the current wall-clock time", the
  timestamp being "formatted as YYYY-MM-DD.HH:MM:SS"; \<^verbatim>\<open>arch.c\<close> calls it with the
  pattern \<^verbatim>\<open>%F.%H:%M:%S\<close>. The wall-clock time is an input of the model.
\<close>

definition util_getLocalTime :: "wallclock \<Rightarrow> string" where
  "util_getLocalTime t =
     pad4 (year t) @ ''-'' @ pad2 (month t) @ ''-'' @ pad2 (day t) @ ''.'' @
     pad2 (hour t) @ '':'' @ pad2 (minute t) @ '':'' @ pad2 (second t)"

section \<open>Engine context, run state and observable effects\<close>

text \<open>
  The fields of \<^verbatim>\<open>honggfuzz_t\<close> and \<^verbatim>\<open>fuzzer_t\<close> that \<^verbatim>\<open>arch.c\<close> reads or writes. The two
  counters are incremented with \<^verbatim>\<open>__sync_fetch_and_add(&..., 1UL)\<close>: unsigned 64-bit
  values that wrap around.
\<close>

record honggfuzz_t =
  cmdline :: "string list"
  workDir :: string
  fileExtn :: string
  fuzzStdin :: bool
  origFlipRate :: real
  useVerifier :: bool
  crashesCnt :: "64 word"
  uniqueCrashesCnt :: "64 word"

record fuzzer_t =
  pid :: int
  fileName :: string
  origFileName :: string

datatype counter = CrashesCnt | UniqueCrashesCnt

datatype message =
    Exited_normally int nat
  | Exited_with_status int status
  | Killed_by_signal int nat
  | Not_important
  | Saving string string
  | Couldnt_save string string
  | Came_back int status

text \<open>What a call does to the outside, in program order.\<close>

datatype event =
    Sancov_Analyze
  | LOG_D message
  | LOG_I message
  | LOG_E message
  | Fetch_and_add counter
  | Copy_file string string
  | Wait4 int

datatype fault = Out_of_bounds nat

section \<open>\<^verbatim>\<open>arch_analyzeSignal\<close>\<close>

text \<open>The name under which a crash is saved (the two \<^verbatim>\<open>snprintf\<close> calls into \<^verbatim>\<open>newname\<close>).\<close>

definition newname :: "honggfuzz_t \<Rightarrow> fuzzer_t \<Rightarrow> sig_entry \<Rightarrow> string \<Rightarrow> string" where
  "newname hfuzz fuzzer ent localtmstr =
     (if origFlipRate hfuzz = 0 \<and> useVerifier hfuzz
      then snprintf PATH_MAX (origFileName fuzzer)
      else snprintf PATH_MAX
             (workDir hfuzz @ ''/'' @ descr ent @ ''.'' @ fmt_d (pid fuzzer) @ ''.'' @
              localtmstr @ ''.'' @ origFileName fuzzer @ ''.'' @ fileExtn hfuzz))"

text \<open>
  The analyser. \<open>now\<close> is the wall-clock time read by \<^verbatim>\<open>time(NULL)\<close> and \<open>copy_ok\<close> the
  result of \<^verbatim>\<open>files_copyFile\<close>; both come from the environment. The result is the
  returned boolean (or the fault of an out-of-range table read), the engine context
  after the call and the effects in the order they happen.
\<close>

definition arch_analyzeSignal ::
  "honggfuzz_t \<Rightarrow> status \<Rightarrow> fuzzer_t \<Rightarrow> wallclock \<Rightarrow> bool \<Rightarrow> (fault + bool) \<times> honggfuzz_t \<times> event list"
where
  "arch_analyzeSignal hfuzz status fuzzer now copy_ok =
     (if WIFCONTINUED status then (Inr False, hfuzz, [])
      else
        let tr0 = (if WIFEXITED status \<or> WIFSIGNALED status then [Sancov_Analyze] else [])
        in
        if WIFEXITED status
        then (Inr True, hfuzz, tr0 @ [LOG_D (Exited_normally (pid fuzzer) (WEXITSTATUS status))])
        else if \<not> WIFSIGNALED status
        then (Inr True, hfuzz, tr0 @ [LOG_E (Exited_with_status (pid fuzzer) status)])
        else
          let termsig = WTERMSIG status;
              tr1 = tr0 @ [LOG_D (Killed_by_signal (pid fuzzer) termsig)]
          in
          case arch_sigs_at termsig of
            None \<Rightarrow> (Inl (Out_of_bounds termsig), hfuzz, tr1)
          | Some ent \<Rightarrow>
              if \<not> important ent then (Inr True, hfuzz, tr1 @ [LOG_D Not_important])
              else
                let localtmstr = util_getLocalTime now;
                    dst = newname hfuzz fuzzer ent localtmstr;
                    hfuzz1 = hfuzz\<lparr>crashesCnt := crashesCnt hfuzz + 1\<rparr>;
                    hfuzz2 = hfuzz1\<lparr>uniqueCrashesCnt := uniqueCrashesCnt hfuzz1 + 1\<rparr>
                in (Inr True, hfuzz2,
                    tr1 @ [LOG_I (Saving (fileName fuzzer) dst),
                           Fetch_and_add CrashesCnt,
                           Fetch_and_add UniqueCrashesCnt,
                           Copy_file (fileName fuzzer) dst] @
                    (if copy_ok then [] else [LOG_E (Couldnt_save (fileName fuzzer) dst)])))"

text \<open>The effects that make up crash persistence: a counter increment or the artifact copy.\<close>

fun crash_effect :: "event \<Rightarrow> bool" where
  "crash_effect (Fetch_and_add c) = True"
| "crash_effect (Copy_file src dst) = True"
| "crash_effect e = False"

section \<open>\<^verbatim>\<open>arch_reapChild\<close>\<close>

text \<open>
  The wait loop. The last argument lists what the successive calls of \<^verbatim>\<open>wait4\<close> deliver:
  the value returned and the status stored. The inner \<^verbatim>\<open>while\<close> repeats the call until it
  returns the child's pid. When the list is used up the next call blocks: the reaper is
  still \<open>Waiting\<close>, inside a \<^verbatim>\<open>wait4\<close> on the same pid.
\<close>

datatype reap_outcome = Reaped | Waiting | Faulted fault

definition prepend :: "event list \<Rightarrow> reap_outcome \<times> honggfuzz_t \<times> event list
    \<Rightarrow> reap_outcome \<times> honggfuzz_t \<times> event list" where
  "prepend tr r = (case r of (out, hfuzz, tr') \<Rightarrow> (out, hfuzz, tr @ tr'))"

fun arch_reapChild ::
  "honggfuzz_t \<Rightarrow> fuzzer_t \<Rightarrow> wallclock \<Rightarrow> bool \<Rightarrow> (int \<times> status) list
    \<Rightarrow> reap_outcome \<times> honggfuzz_t \<times> event list"
where
  "arch_reapChild hfuzz fuzzer now copy_ok [] = (Waiting, hfuzz, [Wait4 (pid fuzzer)])"
| "arch_reapChild hfuzz fuzzer now copy_ok ((ret, status) # ws) =
     (if ret \<noteq> pid fuzzer
      then prepend [Wait4 (pid fuzzer)] (arch_reapChild hfuzz fuzzer now copy_ok ws)
      else
        let back = [Wait4 (pid fuzzer), LOG_D (Came_back (pid fuzzer) status)]
        in
        case arch_analyzeSignal hfuzz status fuzzer now copy_ok of
          (Inl f, hfuzz', tr) \<Rightarrow> (Faulted f, hfuzz', back @ tr)
        | (Inr b, hfuzz', tr) \<Rightarrow>
            if b then (Reaped, hfuzz', back @ tr)
            else prepend (back @ tr) (arch_reapChild hfuzz' fuzzer now copy_ok ws))"

section \<open>\<^verbatim>\<open>arch_launchChild\<close>\<close>

definition ARGS_MAX :: nat where "ARGS_MAX = 512"

text \<open>Does \<open>s\<close> begin with \<open>needle\<close>?\<close>

fun starts_with :: "string \<Rightarrow> string \<Rightarrow> bool" where
  "starts_with s [] = True"
| "starts_with [] (c # cs) = False"
| "starts_with (a # s) (c # cs) = (a = c \<and> starts_with s cs)"

text \<open>
  \<^verbatim>\<open>strstr(haystack, needle)\<close>: the offset of the first occurrence of \<open>needle\<close>, or \<open>None\<close>
  for the null pointer.
\<close>

fun strstr :: "string \<Rightarrow> string \<Rightarrow> nat option" where
  "strstr [] needle = (if needle = [] then Some 0 else None)"
| "strstr (c # cs) needle =
     (if starts_with (c # cs) needle then Some 0 else map_option Suc (strstr cs needle))"

text \<open>
  The conversion \<^verbatim>\<open>%.*s\<close> with its \<^verbatim>\<open>int\<close> precision: a negative precision counts as
  none given.
\<close>

definition fmt_prec_s :: "int \<Rightarrow> string \<Rightarrow> string" where
  "fmt_prec_s prec s = (if prec < 0 then s else take (nat prec) s)"

text \<open>
  The text that \<^verbatim>\<open>snprintf(argData, PATH_MAX, "%.*s%s", (int)(off - arg), arg, fileName)\<close>
  leaves in \<^verbatim>\<open>argData\<close>, for the offset \<open>off\<close> of the placeholder in \<open>arg\<close>.
\<close>

definition splice_arg :: "string \<Rightarrow> nat \<Rightarrow> string \<Rightarrow> string" where
  "splice_arg arg off fname =
     snprintf PATH_MAX (fmt_prec_s (sint (word_of_nat off :: 32 word)) arg @ fname)"

text \<open>
  The slots of \<^verbatim>\<open>args\<close> hold pointers: to the \<^verbatim>\<open>fileName\<close> parameter, to the one local
  buffer \<^verbatim>\<open>argData\<close>, or to an argument of the template.
\<close>

datatype arg_ptr = Ptr_fileName | Ptr_argData | Ptr_cmdline nat

record launch_state =
  args :: "arg_ptr list"
  argData :: string

text \<open>
  The \<^verbatim>\<open>for\<close> loop. The template \<^verbatim>\<open>hfuzz->cmdline\<close> is a null-terminated array, here the
  list of its arguments, so \<^verbatim>\<open>hfuzz->cmdline[x]\<close> is non-null as long as \<open>x\<close> is below its
  length. \<open>ph\<close> is \<^verbatim>\<open>_HF_FILE_PLACEHOLDER\<close>, a macro of \<^verbatim>\<open>common.h\<close>. In iteration \<open>x\<close> the
  slots \<open>0\<close> to \<open>x - 1\<close> of \<^verbatim>\<open>args\<close> are filled, and \<^verbatim>\<open>args[x] = p\<close> adds \<open>p\<close> at the end.
\<close>

definition launch_body ::
  "honggfuzz_t \<Rightarrow> string \<Rightarrow> string \<Rightarrow> nat \<Rightarrow> launch_state \<Rightarrow> launch_state"
where
  "launch_body hfuzz ph fname x s =
     (if \<not> fuzzStdin hfuzz \<and> cmdline hfuzz ! x = ph
      then s\<lparr>args := args s @ [Ptr_fileName]\<rparr>
      else
        case (if fuzzStdin hfuzz then None else strstr (cmdline hfuzz ! x) ph) of
          Some off \<Rightarrow>
            s\<lparr>argData := splice_arg (cmdline hfuzz ! x) off fname, args := args s @ [Ptr_argData]\<rparr>
        | None \<Rightarrow> s\<lparr>args := args s @ [Ptr_cmdline x]\<rparr>)"

function launch_loop ::
  "honggfuzz_t \<Rightarrow> string \<Rightarrow> string \<Rightarrow> nat \<Rightarrow> launch_state \<Rightarrow> launch_state"
where
  "launch_loop hfuzz ph fname x s =
     (if x < ARGS_MAX \<and> x < length (cmdline hfuzz)
      then launch_loop hfuzz ph fname (Suc x) (launch_body hfuzz ph fname x s)
      else s)"
  by pat_completeness auto
termination
  by (relation "measure (\<lambda>(hfuzz, ph, fname, x, s). length (cmdline hfuzz) - x)") auto

declare launch_loop.simps [simp del]

text \<open>What a slot of \<^verbatim>\<open>args\<close> points to, given the final content of \<^verbatim>\<open>argData\<close>.\<close>

fun deref :: "honggfuzz_t \<Rightarrow> string \<Rightarrow> string \<Rightarrow> arg_ptr \<Rightarrow> string" where
  "deref hfuzz fname buf Ptr_fileName = fname"
| "deref hfuzz fname buf Ptr_argData = buf"
| "deref hfuzz fname buf (Ptr_cmdline i) = cmdline hfuzz ! i"

text \<open>
  The argument vector that \<^verbatim>\<open>execvp\<close> receives: the strings behind the slots of \<^verbatim>\<open>args\<close>
  up to the closing null pointer. \<^verbatim>\<open>argData\<close> starts zero-filled.
\<close>

definition launch_args :: "honggfuzz_t \<Rightarrow> string \<Rightarrow> string \<Rightarrow> string list" where
  "launch_args hfuzz ph fname =
     (let s = launch_loop hfuzz ph fname 0 \<lparr>args = [], argData = []\<rparr>
      in map (deref hfuzz fname (argData s)) (args s))"

text \<open>
  \<^verbatim>\<open>arch_launchChild\<close>: when \<^verbatim>\<open>execvp\<close> succeeds the process goes on as the target with
  these arguments and the call never returns; when it fails the call returns false.
\<close>

datatype launched = Execed "string list" | Returned bool

definition arch_launchChild :: "honggfuzz_t \<Rightarrow> string \<Rightarrow> string \<Rightarrow> bool \<Rightarrow> launched" where
  "arch_launchChild hfuzz ph fname exec_ok =
     (let argv = launch_args hfuzz ph fname in if exec_ok then Execed argv else Returned False)"

text \<open>Is \<open>arg\<close> rewritten through \<^verbatim>\<open>argData\<close>: not the placeholder itself, but containing it?\<close>

definition spliced :: "string \<Rightarrow> string \<Rightarrow> bool" where
  "spliced ph arg \<longleftrightarrow> arg \<noteq> ph \<and> strstr arg ph \<noteq> None"

text \<open>The number of iterations of the loop, and so of arguments handed to \<^verbatim>\<open>execvp\<close>.\<close>

definition launch_count :: "honggfuzz_t \<Rightarrow> nat" where
  "launch_count hfuzz = min ARGS_MAX (length (cmdline hfuzz))"

text \<open>Does iteration \<open>x\<close> of the loop write \<^verbatim>\<open>argData\<close>?\<close>

definition writes_argData :: "honggfuzz_t \<Rightarrow> string \<Rightarrow> nat \<Rightarrow> bool" where
  "writes_argData hfuzz ph x \<longleftrightarrow> \<not> fuzzStdin hfuzz \<and> spliced ph (cmdline hfuzz ! x)"

section \<open>Reading the effects\<close>

text \<open>The destinations of the copies among the effects, in order.\<close>

fun copy_dsts :: "event list \<Rightarrow> string list" where
  "copy_dsts [] = []"
| "copy_dsts (Copy_file src dst # es) = dst # copy_dsts es"
| "copy_dsts (e # es) = copy_dsts es"

text \<open>A text with every decimal digit replaced by \<open>D\<close>, to compare it with a pattern.\<close>

definition is_digit :: "char \<Rightarrow> bool" where
  "is_digit c \<longleftrightarrow> c \<in> set ''0123456789''"

definition mask_digits :: "string \<Rightarrow> string" where
  "mask_digits s = map (\<lambda>c. if is_digit c then CHR ''D'' else c) s"

section \<open>A concrete run\<close>

definition hfuzz0 :: honggfuzz_t where
  "hfuzz0 = \<lparr>cmdline = [''target'', ''--in=@@'', ''rest''], workDir = ''/out'',
     fileExtn = ''fuzz'', fuzzStdin = False, origFlipRate = 0.05, useVerifier = False,
     crashesCnt = 0, uniqueCrashesCnt = 0\<rparr>"

definition fuzzer0 :: fuzzer_t where
  "fuzzer0 = \<lparr>pid = 4242, fileName = ''/tmp/f1'', origFileName = ''seed1''\<rparr>"

definition now0 :: wallclock where
  "now0 = \<lparr>year = 2024, month = 1, day = 2, hour = 10, minute = 0, second = 0\<rparr>"

text \<open>The same engine in replay mode: no mutation, verifier on.\<close>

definition hfuzz_replay :: honggfuzz_t where
  "hfuzz_replay = hfuzz0\<lparr>origFlipRate := 0, useVerifier := True\<rparr>"

text \<open>A run whose original file name fills a \<^verbatim>\<open>PATH_MAX\<close> buffer and one that exceeds it.\<close>

definition fuzzer_long :: fuzzer_t where
  "fuzzer_long = fuzzer0\<lparr>origFileName := replicate 4095 CHR ''A''\<rparr>"

definition fuzzer_longer :: fuzzer_t where
  "fuzzer_longer = fuzzer0\<lparr>origFileName := replicate 4096 CHR ''A''\<rparr>"

text \<open>Engines for the launcher: input on standard input, and templates beyond the common case.\<close>

definition hfuzz_stdin :: honggfuzz_t where
  "hfuzz_stdin = hfuzz0\<lparr>fuzzStdin := True\<rparr>"

definition hfuzz_two :: honggfuzz_t where
  "hfuzz_two = hfuzz0\<lparr>cmdline := [''target'', ''--in=@@'', ''--out=@@'']\<rparr>"

definition hfuzz_many :: honggfuzz_t where
  "hfuzz_many = hfuzz0\<lparr>cmdline := replicate 513 ''a'', fuzzStdin := True\<rparr>"

text \<open>
  A template of 514 arguments with the placeholder inside the second and inside the last
  one, which lies beyond the first \<^verbatim>\<open>ARGS_MAX\<close>.
\<close>

definition hfuzz_far :: honggfuzz_t where
  "hfuzz_far = hfuzz0\<lparr>cmdline := [''target'', ''--in=@@''] @ replicate 511 ''a'' @ [''--out=@@'']\<rparr>"

text \<open>An engine whose total counter has reached the largest 64-bit value.\<close>

definition hfuzz_full :: honggfuzz_t where
  "hfuzz_full = hfuzz0\<lparr>crashesCnt := - 1\<rparr>"

section \<open>Facts about the status macros\<close>

lemma continued_not_exited: "WIFCONTINUED s \<Longrightarrow> \<not> WIFEXITED s"
  by (simp add: WIFCONTINUED_def WIFEXITED_def WTERMSIG_def)

lemma continued_not_signaled: "WIFCONTINUED s \<Longrightarrow> \<not> WIFSIGNALED s"
  by (simp add: WIFCONTINUED_def WIFSIGNALED_def)

lemma signaled_not_exited: "WIFSIGNALED s \<Longrightarrow> \<not> WIFEXITED s"
  by (auto simp add: WIFSIGNALED_def WIFEXITED_def WTERMSIG_def unat_eq_0)

section \<open>Unexpected status encodings\<close>

text \<open>
  C8. A status that is neither a "continued" notification nor a normal exit nor a
  signal termination: the analyser logs one error-level diagnostic and returns true;
  the engine context is unchanged and nothing else happens (no coverage hook, no
  counter increment, no copy, no fault).
\<close>

theorem unexpected_status_is_logged:
  assumes "\<not> WIFCONTINUED status" and "\<not> WIFEXITED status" and "\<not> WIFSIGNALED status"
  shows "arch_analyzeSignal hfuzz status fuzzer now copy_ok =
           (Inr True, hfuzz, [LOG_E (Exited_with_status (pid fuzzer) status)])"
  using assms by (simp add: arch_analyzeSignal_def)

theorem unexpected_status_is_logged_witness:
  "\<not> WIFCONTINUED 0x137f \<and> \<not> WIFEXITED 0x137f \<and> \<not> WIFSIGNALED 0x137f \<and>
   arch_analyzeSignal hfuzz0 0x137f fuzzer0 now0 True =
     (Inr True, hfuzz0, [LOG_E (Exited_with_status 4242 0x137f)])"
proof -
  have a: "\<not> WIFCONTINUED 0x137f" by (simp add: WIFCONTINUED_def)
  have b: "\<not> WIFEXITED 0x137f" by (simp add: WIFEXITED_def WTERMSIG_def)
  have c: "\<not> WIFSIGNALED 0x137f" by (simp add: WIFSIGNALED_def)
  show ?thesis
    using a b c unexpected_status_is_logged [OF a b c, of hfuzz0 fuzzer0 now0 True]
    by (simp add: fuzzer0_def)
qed

section \<open>Crashes and boring terminations\<close>

lemmas sig_defs = NSIG_def SIGILL_def SIGFPE_def SIGSEGV_def SIGBUS_def SIGABRT_def

lemma arch_sigs_at_crash:
  "t \<in> {SIGILL, SIGFPE, SIGSEGV, SIGBUS, SIGABRT} \<Longrightarrow>
     arch_sigs_at t = Some (arch_sigs ! t) \<and> important (arch_sigs ! t)"
  by (auto simp add: arch_sigs_at_def arch_sigs_def sig_defs)

lemma descr_crash:
  "t \<in> {SIGILL, SIGFPE, SIGSEGV, SIGBUS, SIGABRT} \<Longrightarrow>
     (t, descr (arch_sigs ! t)) \<in> {(SIGILL, ''SIGILL''), (SIGFPE, ''SIGFPE''), (SIGSEGV, ''SIGSEGV''),
        (SIGBUS, ''SIGBUS''), (SIGABRT, ''SIGABRT'')}"
  by (auto simp add: arch_sigs_at_def arch_sigs_def sig_defs)

lemma analyze_crash:
  assumes "WIFSIGNALED status"
    and "WTERMSIG status \<in> {SIGILL, SIGFPE, SIGSEGV, SIGBUS, SIGABRT}"
  shows "arch_analyzeSignal hfuzz status fuzzer now copy_ok =
     (let dst = newname hfuzz fuzzer (arch_sigs ! WTERMSIG status) (util_getLocalTime now)
      in (Inr True,
          hfuzz\<lparr>crashesCnt := crashesCnt hfuzz + 1, uniqueCrashesCnt := uniqueCrashesCnt hfuzz + 1\<rparr>,
          [Sancov_Analyze,
           LOG_D (Killed_by_signal (pid fuzzer) (WTERMSIG status)),
           LOG_I (Saving (fileName fuzzer) dst),
           Fetch_and_add CrashesCnt,
           Fetch_and_add UniqueCrashesCnt,
           Copy_file (fileName fuzzer) dst] @
          (if copy_ok then [] else [LOG_E (Couldnt_save (fileName fuzzer) dst)])))"
proof -
  have c: "\<not> WIFCONTINUED status" using assms(1) continued_not_signaled by blast
  have e: "\<not> WIFEXITED status" using assms(1) signaled_not_exited by blast
  show ?thesis
    using arch_sigs_at_crash [OF assms(2)] assms(1) c e
    by (simp add: arch_analyzeSignal_def Let_def)
qed

text \<open>
  C1. A status that says the child was killed by SIGILL, SIGFPE, SIGSEGV, SIGBUS or
  SIGABRT: the analyser returns true, adds one to \<^verbatim>\<open>crashesCnt\<close> and one to
  \<^verbatim>\<open>uniqueCrashesCnt\<close> (unsigned 64-bit additions), and calls \<^verbatim>\<open>files_copyFile\<close> once, from
  the candidate file to the computed name. The context after the call is the same whether
  the copy succeeds or not; a failed copy only adds the error-level log entry.
\<close>

theorem crash_is_counted_and_saved:
  assumes "WIFSIGNALED status"
    and "WTERMSIG status \<in> {SIGILL, SIGFPE, SIGSEGV, SIGBUS, SIGABRT}"
  shows "arch_analyzeSignal hfuzz status fuzzer now copy_ok =
     (let dst = newname hfuzz fuzzer (arch_sigs ! WTERMSIG status) (util_getLocalTime now)
      in (Inr True,
          hfuzz\<lparr>crashesCnt := crashesCnt hfuzz + 1, uniqueCrashesCnt := uniqueCrashesCnt hfuzz + 1\<rparr>,
          [Sancov_Analyze,
           LOG_D (Killed_by_signal (pid fuzzer) (WTERMSIG status)),
           LOG_I (Saving (fileName fuzzer) dst),
           Fetch_and_add CrashesCnt,
           Fetch_and_add UniqueCrashesCnt,
           Copy_file (fileName fuzzer) dst] @
          (if copy_ok then [] else [LOG_E (Couldnt_save (fileName fuzzer) dst)])))"
  using assms by (rule analyze_crash)

lemma sigsegv_core: "WIFSIGNALED 0x8b \<and> WTERMSIG 0x8b = SIGSEGV"
  by (simp add: WIFSIGNALED_def WTERMSIG_def SIGSEGV_def)

lemma now0_str: "util_getLocalTime now0 = ''2024-01-02.10:00:00''"
  by (simp add: util_getLocalTime_def now0_def pad2_def pad4_def digit_char_def)

lemma newname0: "newname hfuzz0 fuzzer0 (arch_sigs ! 11) ''2024-01-02.10:00:00''
   = ''/out/SIGSEGV.4242.2024-01-02.10:00:00.seed1.fuzz''"
  by (simp add: newname_def hfuzz0_def fuzzer0_def arch_sigs_def sig_defs snprintf_def PATH_MAX_def
    fmt_d_def dec_nat.simps digit_char_def)

theorem crash_is_counted_and_saved_witness:
  "WIFSIGNALED 0x8b \<and> WTERMSIG 0x8b \<in> {SIGILL, SIGFPE, SIGSEGV, SIGBUS, SIGABRT} \<and>
   arch_analyzeSignal hfuzz0 0x8b fuzzer0 now0 False =
     (Inr True, hfuzz0\<lparr>crashesCnt := 1, uniqueCrashesCnt := 1\<rparr>,
      [Sancov_Analyze, LOG_D (Killed_by_signal 4242 11),
       LOG_I (Saving ''/tmp/f1'' ''/out/SIGSEGV.4242.2024-01-02.10:00:00.seed1.fuzz''),
       Fetch_and_add CrashesCnt, Fetch_and_add UniqueCrashesCnt,
       Copy_file ''/tmp/f1'' ''/out/SIGSEGV.4242.2024-01-02.10:00:00.seed1.fuzz'',
       LOG_E (Couldnt_save ''/tmp/f1'' ''/out/SIGSEGV.4242.2024-01-02.10:00:00.seed1.fuzz'')])"
proof -
  have a: "WIFSIGNALED 0x8b" using sigsegv_core by simp
  have b: "WTERMSIG 0x8b \<in> {SIGILL, SIGFPE, SIGSEGV, SIGBUS, SIGABRT}" using sigsegv_core by simp
  have t: "WTERMSIG 0x8b = SIGSEGV" using sigsegv_core by simp
  have f: "pid fuzzer0 = 4242 \<and> fileName fuzzer0 = ''/tmp/f1''" by (simp add: fuzzer0_def)
  have h: "crashesCnt hfuzz0 = 0 \<and> uniqueCrashesCnt hfuzz0 = 0" by (simp add: hfuzz0_def)
  show ?thesis
    using a b crash_is_counted_and_saved [OF a b, of hfuzz0 fuzzer0 now0 False]
    by (simp add: t now0_str newname0 f h SIGSEGV_def Let_def)
qed

text \<open>
  C2. A normal exit, or a termination by a signal whose table entry is not important:
  the analyser returns true, the engine context (both counters included) is unchanged,
  and the effects contain neither a counter increment nor a copy.
\<close>

theorem boring_status_has_no_crash_effects:
  assumes "WIFEXITED status \<or>
     (WIFSIGNALED status \<and> (\<exists>ent. arch_sigs_at (WTERMSIG status) = Some ent \<and> \<not> important ent))"
  shows "fst (arch_analyzeSignal hfuzz status fuzzer now copy_ok) = Inr True \<and>
         fst (snd (arch_analyzeSignal hfuzz status fuzzer now copy_ok)) = hfuzz \<and>
         filter crash_effect (snd (snd (arch_analyzeSignal hfuzz status fuzzer now copy_ok))) = []"
  using assms
proof
  assume e: "WIFEXITED status"
  then have "\<not> WIFCONTINUED status" using continued_not_exited by blast
  with e show ?thesis by (simp add: arch_analyzeSignal_def)
next
  assume s: "WIFSIGNALED status \<and> (\<exists>ent. arch_sigs_at (WTERMSIG status) = Some ent \<and> \<not> important ent)"
  then have "\<not> WIFCONTINUED status" and "\<not> WIFEXITED status"
    using continued_not_signaled signaled_not_exited by blast+
  with s show ?thesis by (auto simp add: arch_analyzeSignal_def Let_def)
qed

theorem boring_status_has_no_crash_effects_witness:
  "WIFEXITED 0x100 \<and> WIFSIGNALED 15 \<and>
   arch_sigs_at (WTERMSIG 15) = Some \<lparr>important = False, descr = ''UNKNOWN''\<rparr> \<and>
   arch_analyzeSignal hfuzz0 0x100 fuzzer0 now0 True =
     (Inr True, hfuzz0, [Sancov_Analyze, LOG_D (Exited_normally 4242 1)]) \<and>
   fst (arch_analyzeSignal hfuzz0 15 fuzzer0 now0 True) = Inr True \<and>
   fst (snd (arch_analyzeSignal hfuzz0 15 fuzzer0 now0 True)) = hfuzz0 \<and>
   filter crash_effect (snd (snd (arch_analyzeSignal hfuzz0 15 fuzzer0 now0 True))) = []"
proof -
  have a: "WIFEXITED 0x100" by (simp add: WIFEXITED_def WTERMSIG_def)
  have b: "WIFSIGNALED 15"
    "arch_sigs_at (WTERMSIG 15) = Some \<lparr>important = False, descr = ''UNKNOWN''\<rparr>"
    by (simp_all add: WIFSIGNALED_def WTERMSIG_def arch_sigs_at_def arch_sigs_def sig_defs)
  have c: "arch_analyzeSignal hfuzz0 0x100 fuzzer0 now0 True =
     (Inr True, hfuzz0, [Sancov_Analyze, LOG_D (Exited_normally 4242 1)])"
    using a by (simp add: arch_analyzeSignal_def WIFCONTINUED_def WEXITSTATUS_def fuzzer0_def)
  show ?thesis
    using a b c
      boring_status_has_no_crash_effects [of "0x100" hfuzz0 fuzzer0 now0 True]
      boring_status_has_no_crash_effects [of 15 hfuzz0 fuzzer0 now0 True]
    by simp
qed

section \<open>Continued notifications and the wait loop\<close>

lemma reap_starts_with_wait:
  "\<exists>tr. snd (snd (arch_reapChild hfuzz fuzzer now copy_ok ws)) = Wait4 (pid fuzzer) # tr"
proof (cases ws)
  case Nil
  then show ?thesis by simp
next
  case (Cons w ws')
  obtain ret status where w: "w = (ret, status)" by (cases w)
  show ?thesis
    unfolding Cons w
    by (auto simp add: prepend_def Let_def split: prod.splits sum.splits)
qed

text \<open>
  C6. A "continued" status: the analyser returns false with the context unchanged and no
  effect at all. The wait loop, having received that status for its child, does not
  return: it goes on as it would on the remaining deliveries, and what it does next is a
  \<^verbatim>\<open>wait4\<close> on the same pid. With nothing further delivered it is still waiting.
\<close>

theorem continued_keeps_waiting:
  assumes "WIFCONTINUED status"
  shows "arch_analyzeSignal hfuzz status fuzzer now copy_ok = (Inr False, hfuzz, []) \<and>
     arch_reapChild hfuzz fuzzer now copy_ok ((pid fuzzer, status) # ws) =
       prepend [Wait4 (pid fuzzer), LOG_D (Came_back (pid fuzzer) status)]
         (arch_reapChild hfuzz fuzzer now copy_ok ws) \<and>
     (\<exists>tr. snd (snd (arch_reapChild hfuzz fuzzer now copy_ok ws)) = Wait4 (pid fuzzer) # tr) \<and>
     arch_reapChild hfuzz fuzzer now copy_ok [(pid fuzzer, status)] =
       (Waiting, hfuzz,
        [Wait4 (pid fuzzer), LOG_D (Came_back (pid fuzzer) status), Wait4 (pid fuzzer)])"
proof -
  have a: "arch_analyzeSignal hfuzz status fuzzer now copy_ok = (Inr False, hfuzz, [])"
    using assms by (simp add: arch_analyzeSignal_def)
  have b: "arch_reapChild hfuzz fuzzer now copy_ok ((pid fuzzer, status) # ws) =
       prepend [Wait4 (pid fuzzer), LOG_D (Came_back (pid fuzzer) status)]
         (arch_reapChild hfuzz fuzzer now copy_ok ws)" for ws
    by (simp add: a)
  have c: "arch_reapChild hfuzz fuzzer now copy_ok [(pid fuzzer, status)] =
       (Waiting, hfuzz,
        [Wait4 (pid fuzzer), LOG_D (Came_back (pid fuzzer) status), Wait4 (pid fuzzer)])"
    by (simp add: a prepend_def)
  show ?thesis using a b c reap_starts_with_wait by blast
qed

theorem continued_keeps_waiting_witness:
  "WIFCONTINUED 0xffff \<and>
   arch_analyzeSignal hfuzz0 0xffff fuzzer0 now0 True = (Inr False, hfuzz0, []) \<and>
   arch_reapChild hfuzz0 fuzzer0 now0 True [(4242, 0xffff)] =
     (Waiting, hfuzz0, [Wait4 4242, LOG_D (Came_back 4242 0xffff), Wait4 4242]) \<and>
   arch_reapChild hfuzz0 fuzzer0 now0 True [(4242, 0xffff), (4242, 0x100)] =
     (Reaped, hfuzz0, [Wait4 4242, LOG_D (Came_back 4242 0xffff),
        Wait4 4242, LOG_D (Came_back 4242 0x100), Sancov_Analyze, LOG_D (Exited_normally 4242 1)])"
proof -
  have a: "WIFCONTINUED 0xffff" by (simp add: WIFCONTINUED_def)
  have p: "pid fuzzer0 = 4242" by (simp add: fuzzer0_def)
  have e: "arch_analyzeSignal hfuzz0 0x100 fuzzer0 now0 True =
     (Inr True, hfuzz0, [Sancov_Analyze, LOG_D (Exited_normally 4242 1)])"
    by (simp add: arch_analyzeSignal_def WIFCONTINUED_def WIFEXITED_def WTERMSIG_def
        WEXITSTATUS_def fuzzer0_def)
  have r: "arch_reapChild hfuzz0 fuzzer0 now0 True [(4242, 0x100)] =
     (Reaped, hfuzz0, [Wait4 4242, LOG_D (Came_back 4242 0x100), Sancov_Analyze,
        LOG_D (Exited_normally 4242 1)])"
    by (simp add: e p)
  note t = continued_keeps_waiting [OF a, of hfuzz0 fuzzer0 now0 True "[(4242, 0x100)]", unfolded p]
  have 1: "arch_analyzeSignal hfuzz0 0xffff fuzzer0 now0 True = (Inr False, hfuzz0, [])"
    by (rule t [THEN conjunct1])
  have 2: "arch_reapChild hfuzz0 fuzzer0 now0 True [(4242, 0xffff), (4242, 0x100)] =
     prepend [Wait4 4242, LOG_D (Came_back 4242 0xffff)]
       (arch_reapChild hfuzz0 fuzzer0 now0 True [(4242, 0x100)])"
    by (rule t [THEN conjunct2, THEN conjunct1])
  have 3: "arch_reapChild hfuzz0 fuzzer0 now0 True [(4242, 0xffff)] =
     (Waiting, hfuzz0, [Wait4 4242, LOG_D (Came_back 4242 0xffff), Wait4 4242])"
    by (rule t [THEN conjunct2, THEN conjunct2, THEN conjunct2])
  have 4: "arch_reapChild hfuzz0 fuzzer0 now0 True [(4242, 0xffff), (4242, 0x100)] =
     (Reaped, hfuzz0, [Wait4 4242, LOG_D (Came_back 4242 0xffff),
        Wait4 4242, LOG_D (Came_back 4242 0x100), Sancov_Analyze, LOG_D (Exited_normally 4242 1)])"
    unfolding 2 r prepend_def by simp
  show ?thesis using a 1 3 4 by blast
qed

section \<open>The coverage hook\<close>

text \<open>
  C7. A terminal status (normal exit or signal termination): the coverage hook is the
  first effect of the call and occurs nowhere else among the effects. So it runs exactly
  once, and every counter increment and every copy of that call comes after it.
\<close>

theorem coverage_hook_once_and_first:
  assumes "WIFEXITED status \<or> WIFSIGNALED status"
  shows "\<exists>rest. snd (snd (arch_analyzeSignal hfuzz status fuzzer now copy_ok)) = Sancov_Analyze # rest \<and>
           Sancov_Analyze \<notin> set rest"
proof -
  have c: "\<not> WIFCONTINUED status"
    using assms continued_not_exited continued_not_signaled by blast
  show ?thesis
    using assms c
    by (auto simp add: arch_analyzeSignal_def Let_def split: option.splits)
qed

theorem coverage_hook_once_and_first_witness:
  "(WIFEXITED 0x8b \<or> WIFSIGNALED 0x8b) \<and>
   (\<exists>rest. snd (snd (arch_analyzeSignal hfuzz0 0x8b fuzzer0 now0 True)) = Sancov_Analyze # rest \<and>
      Sancov_Analyze \<notin> set rest)"
proof -
  have a: "WIFEXITED 0x8b \<or> WIFSIGNALED 0x8b" by (simp add: WIFSIGNALED_def)
  show ?thesis
    using a coverage_hook_once_and_first [OF a, of hfuzz0 fuzzer0 now0 True] by blast
qed

section \<open>The counters\<close>

lemma analyze_crash_state:
  assumes "WIFSIGNALED status"
    and "WTERMSIG status \<in> {SIGILL, SIGFPE, SIGSEGV, SIGBUS, SIGABRT}"
  shows "fst (snd (arch_analyzeSignal hfuzz status fuzzer now copy_ok)) =
     hfuzz\<lparr>crashesCnt := crashesCnt hfuzz + 1, uniqueCrashesCnt := uniqueCrashesCnt hfuzz + 1\<rparr>"
  by (simp add: analyze_crash [OF assms] Let_def)

lemma analyze_crash_dsts:
  assumes "WIFSIGNALED status"
    and "WTERMSIG status \<in> {SIGILL, SIGFPE, SIGSEGV, SIGBUS, SIGABRT}"
  shows "copy_dsts (snd (snd (arch_analyzeSignal hfuzz status fuzzer now copy_ok))) =
     [newname hfuzz fuzzer (arch_sigs ! WTERMSIG status) (util_getLocalTime now)]"
  by (simp add: analyze_crash [OF assms] Let_def)

lemma analyze_counters:
  "fst (snd (arch_analyzeSignal hfuzz status fuzzer now copy_ok)) = hfuzz \<or>
   fst (snd (arch_analyzeSignal hfuzz status fuzzer now copy_ok)) =
     hfuzz\<lparr>crashesCnt := crashesCnt hfuzz + 1, uniqueCrashesCnt := uniqueCrashesCnt hfuzz + 1\<rparr>"
  by (simp add: arch_analyzeSignal_def Let_def split: option.splits)

lemma word_succ_mono: "(u :: 64 word) \<le> t \<Longrightarrow> t \<noteq> - 1 \<Longrightarrow> u + 1 \<le> t + 1"
  by (metis add.commute linorder_le_less_linear max_word_wrap word_less_1
    word_plus_mono_right)

text \<open>
  C9, as the code has it. The counters are unsigned 64-bit values. Every call leaves both
  unchanged or adds one to both, so equal counters stay equal. The order
  \<open>uniqueCrashesCnt \<le> crashesCnt\<close> is kept whenever \<^verbatim>\<open>crashesCnt\<close> is below the largest
  64-bit value; at that value the addition wraps to zero.
\<close>

theorem counters_move_together:
  "let hfuzz' = fst (snd (arch_analyzeSignal hfuzz status fuzzer now copy_ok)) in
     ((crashesCnt hfuzz' = crashesCnt hfuzz \<and> uniqueCrashesCnt hfuzz' = uniqueCrashesCnt hfuzz) \<or>
      (crashesCnt hfuzz' = crashesCnt hfuzz + 1 \<and>
       uniqueCrashesCnt hfuzz' = uniqueCrashesCnt hfuzz + 1)) \<and>
     (uniqueCrashesCnt hfuzz \<le> crashesCnt hfuzz \<and> crashesCnt hfuzz \<noteq> - 1 \<longrightarrow>
        uniqueCrashesCnt hfuzz' \<le> crashesCnt hfuzz') \<and>
     (uniqueCrashesCnt hfuzz = crashesCnt hfuzz \<longrightarrow>
        uniqueCrashesCnt hfuzz' = crashesCnt hfuzz')"
  using analyze_counters [of hfuzz status fuzzer now copy_ok]
  by (auto simp add: Let_def word_succ_mono)

theorem counters_move_together_witness:
  "uniqueCrashesCnt hfuzz0 \<le> crashesCnt hfuzz0 \<and> crashesCnt hfuzz0 \<noteq> - 1 \<and>
   uniqueCrashesCnt hfuzz0 = crashesCnt hfuzz0 \<and>
   uniqueCrashesCnt (fst (snd (arch_analyzeSignal hfuzz0 0x8b fuzzer0 now0 True))) \<le>
     crashesCnt (fst (snd (arch_analyzeSignal hfuzz0 0x8b fuzzer0 now0 True))) \<and>
   uniqueCrashesCnt (fst (snd (arch_analyzeSignal hfuzz0 0x8b fuzzer0 now0 True))) =
     crashesCnt (fst (snd (arch_analyzeSignal hfuzz0 0x8b fuzzer0 now0 True)))"
proof -
  have h: "uniqueCrashesCnt hfuzz0 \<le> crashesCnt hfuzz0 \<and> crashesCnt hfuzz0 \<noteq> - 1 \<and>
     uniqueCrashesCnt hfuzz0 = crashesCnt hfuzz0"
    by (simp add: hfuzz0_def)
  show ?thesis
    using h counters_move_together [of hfuzz0 "0x8b" fuzzer0 now0 True]
    by (simp add: Let_def)
qed

text \<open>
  The claim as stated fails when the total has reached the largest value: the invariant
  holds before the crash and not after it.
\<close>

theorem invariant_lost_on_wrap:
  "uniqueCrashesCnt hfuzz_full \<le> crashesCnt hfuzz_full \<and>
   \<not> uniqueCrashesCnt (fst (snd (arch_analyzeSignal hfuzz_full 0x8b fuzzer0 now0 True))) \<le>
       crashesCnt (fst (snd (arch_analyzeSignal hfuzz_full 0x8b fuzzer0 now0 True)))"
proof -
  have a: "WIFSIGNALED 0x8b" using sigsegv_core by simp
  have b: "WTERMSIG 0x8b \<in> {SIGILL, SIGFPE, SIGSEGV, SIGBUS, SIGABRT}" using sigsegv_core by simp
  show ?thesis
    by (simp add: analyze_crash_state [OF a b] hfuzz_full_def hfuzz0_def)
qed

section \<open>The name of the saved file\<close>

lemma snprintf_fits: "length s < n \<Longrightarrow> snprintf n s = s"
  by (simp add: snprintf_def)

lemma length_snprintf: "length (snprintf n s) \<le> n - 1"
  by (simp add: snprintf_def)

lemma is_digit_digit_char: "is_digit (digit_char d)"
proof -
  have "d mod 10 < length ''0123456789''" by simp
  then have "''0123456789'' ! (d mod 10) \<in> set ''0123456789''" by (rule nth_mem)
  then show ?thesis by (simp only: is_digit_def digit_char_def)
qed

lemma timestamp_shape: "mask_digits (util_getLocalTime t) = ''DDDD-DD-DD.DD:DD:DD''"
proof -
  have n: "\<not> is_digit CHR ''-''" "\<not> is_digit CHR ''.''" "\<not> is_digit CHR '':''"
    by (simp_all add: is_digit_def)
  show ?thesis
    by (simp add: mask_digits_def util_getLocalTime_def pad2_def pad4_def is_digit_digit_char n)
qed

text \<open>
  C3, as the code has it. In replay mode (\<^verbatim>\<open>origFlipRate == 0.0L\<close> and the verifier on;
  the rate enters only through this comparison with zero) a crash is copied to the first
  \<^verbatim>\<open>PATH_MAX - 1\<close> characters of the original file name, whatever the signal and the pid.
  That is the original file name itself when it is shorter than \<^verbatim>\<open>PATH_MAX\<close>.
\<close>

theorem replay_name_is_original:
  assumes "origFlipRate hfuzz = 0" and "useVerifier hfuzz"
    and "WIFSIGNALED status"
    and "WTERMSIG status \<in> {SIGILL, SIGFPE, SIGSEGV, SIGBUS, SIGABRT}"
  shows "copy_dsts (snd (snd (arch_analyzeSignal hfuzz status fuzzer now copy_ok))) =
           [take (PATH_MAX - 1) (origFileName fuzzer)] \<and>
         (length (origFileName fuzzer) < PATH_MAX \<longrightarrow>
            copy_dsts (snd (snd (arch_analyzeSignal hfuzz status fuzzer now copy_ok))) =
              [origFileName fuzzer])"
  using assms(1,2)
  by (simp add: analyze_crash_dsts [OF assms(3,4)] newname_def snprintf_def)

theorem replay_name_is_original_witness:
  "origFlipRate hfuzz_replay = 0 \<and> useVerifier hfuzz_replay \<and> WIFSIGNALED 0x8b \<and>
   WTERMSIG 0x8b \<in> {SIGILL, SIGFPE, SIGSEGV, SIGBUS, SIGABRT} \<and>
   length (origFileName fuzzer0) < PATH_MAX \<and>
   copy_dsts (snd (snd (arch_analyzeSignal hfuzz_replay 0x8b fuzzer0 now0 True))) = [''seed1'']"
proof -
  have r: "origFlipRate hfuzz_replay = 0" "useVerifier hfuzz_replay"
    by (simp_all add: hfuzz_replay_def)
  have a: "WIFSIGNALED 0x8b" using sigsegv_core by simp
  have b: "WTERMSIG 0x8b \<in> {SIGILL, SIGFPE, SIGSEGV, SIGBUS, SIGABRT}" using sigsegv_core by simp
  have l: "length (origFileName fuzzer0) < PATH_MAX" "origFileName fuzzer0 = ''seed1''"
    by (simp_all add: fuzzer0_def PATH_MAX_def)
  show ?thesis
    using r a b l replay_name_is_original [OF r a b, of fuzzer0 now0 True]
    by simp
qed

text \<open>
  The claim as stated fails for an original file name of \<^verbatim>\<open>PATH_MAX\<close> characters: the copy
  goes to a name one character shorter.
\<close>

theorem replay_name_cut_at_path_max:
  "origFlipRate hfuzz_replay = 0 \<and> useVerifier hfuzz_replay \<and>
   copy_dsts (snd (snd (arch_analyzeSignal hfuzz_replay 0x8b fuzzer_longer now0 True))) \<noteq>
     [origFileName fuzzer_longer]"
proof -
  have a: "WIFSIGNALED 0x8b" using sigsegv_core by simp
  have b: "WTERMSIG 0x8b \<in> {SIGILL, SIGFPE, SIGSEGV, SIGBUS, SIGABRT}" using sigsegv_core by simp
  show ?thesis
    by (simp add: analyze_crash_dsts [OF a b] newname_def snprintf_def PATH_MAX_def
        hfuzz_replay_def fuzzer_longer_def)
qed

text \<open>
  C4, as the code has it. Outside replay mode a crash is copied to the first
  \<^verbatim>\<open>PATH_MAX - 1\<close> characters of
  \<open>workDir/NAME.pid.timestamp.origFileName.fileExtn\<close>, and to exactly that text when it
  is shorter than \<^verbatim>\<open>PATH_MAX\<close>. \<open>NAME\<close> is the table's name of the signal, the pid is
  printed in decimal, and the timestamp has the shape \<open>YYYY-MM-DD.HH:MM:SS\<close>.
\<close>

theorem crash_name_is_composed:
  assumes "\<not> (origFlipRate hfuzz = 0 \<and> useVerifier hfuzz)"
    and "WIFSIGNALED status"
    and "WTERMSIG status \<in> {SIGILL, SIGFPE, SIGSEGV, SIGBUS, SIGABRT}"
  shows "let composed = workDir hfuzz @ ''/'' @ descr (arch_sigs ! WTERMSIG status) @ ''.'' @
             fmt_d (pid fuzzer) @ ''.'' @ util_getLocalTime now @ ''.'' @
             origFileName fuzzer @ ''.'' @ fileExtn hfuzz
         in copy_dsts (snd (snd (arch_analyzeSignal hfuzz status fuzzer now copy_ok))) =
              [take (PATH_MAX - 1) composed] \<and>
            (length composed < PATH_MAX \<longrightarrow>
               copy_dsts (snd (snd (arch_analyzeSignal hfuzz status fuzzer now copy_ok))) =
                 [composed]) \<and>
            (WTERMSIG status, descr (arch_sigs ! WTERMSIG status)) \<in>
              {(SIGILL, ''SIGILL''), (SIGFPE, ''SIGFPE''), (SIGSEGV, ''SIGSEGV''),
               (SIGBUS, ''SIGBUS''), (SIGABRT, ''SIGABRT'')} \<and>
            mask_digits (util_getLocalTime now) = ''DDDD-DD-DD.DD:DD:DD''"
proof -
  have n: "newname hfuzz fuzzer ent ts =
      take (PATH_MAX - 1) (workDir hfuzz @ ''/'' @ descr ent @ ''.'' @ fmt_d (pid fuzzer) @ ''.'' @
        ts @ ''.'' @ origFileName fuzzer @ ''.'' @ fileExtn hfuzz)" for ent ts
    using assms(1) by (auto simp add: newname_def snprintf_def)
  show ?thesis
    unfolding Let_def analyze_crash_dsts [OF assms(2,3)] n
    using descr_crash [OF assms(3)] timestamp_shape [of now]
    by simp
qed

theorem crash_name_is_composed_witness:
  "\<not> (origFlipRate hfuzz0 = 0 \<and> useVerifier hfuzz0) \<and> WIFSIGNALED 0x8b \<and>
   WTERMSIG 0x8b \<in> {SIGILL, SIGFPE, SIGSEGV, SIGBUS, SIGABRT} \<and>
   length ''/out/SIGSEGV.4242.2024-01-02.10:00:00.seed1.fuzz'' < PATH_MAX \<and>
   copy_dsts (snd (snd (arch_analyzeSignal hfuzz0 0x8b fuzzer0 now0 True))) =
     [''/out/SIGSEGV.4242.2024-01-02.10:00:00.seed1.fuzz'']"
proof -
  have r: "\<not> (origFlipRate hfuzz0 = 0 \<and> useVerifier hfuzz0)" by (simp add: hfuzz0_def)
  have a: "WIFSIGNALED 0x8b" using sigsegv_core by simp
  have b: "WTERMSIG 0x8b \<in> {SIGILL, SIGFPE, SIGSEGV, SIGBUS, SIGABRT}" using sigsegv_core by simp
  have t: "WTERMSIG 0x8b = 11" using sigsegv_core by (simp add: SIGSEGV_def)
  have c: "workDir hfuzz0 @ ''/'' @ descr (arch_sigs ! 11) @ ''.'' @
             fmt_d (pid fuzzer0) @ ''.'' @ util_getLocalTime now0 @ ''.'' @
             origFileName fuzzer0 @ ''.'' @ fileExtn hfuzz0 =
           ''/out/SIGSEGV.4242.2024-01-02.10:00:00.seed1.fuzz''"
    by (simp add: now0_str hfuzz0_def fuzzer0_def arch_sigs_def sig_defs fmt_d_def dec_nat.simps
        digit_char_def)
  have l: "length ''/out/SIGSEGV.4242.2024-01-02.10:00:00.seed1.fuzz'' < PATH_MAX"
    by (simp add: PATH_MAX_def)
  note th = crash_name_is_composed [OF r a b, of fuzzer0 now0 True, unfolded Let_def t c]
  show ?thesis
    using r a b l th by blast
qed

text \<open>
  The claim as stated fails when the composed text does not fit: with an original file
  name of 4095 characters the copy goes to a shorter name than the composed one.
\<close>

theorem crash_name_cut_at_path_max:
  "\<not> useVerifier hfuzz0 \<and>
   copy_dsts (snd (snd (arch_analyzeSignal hfuzz0 0x8b fuzzer_long now0 True))) \<noteq>
     [''/out/SIGSEGV.4242.2024-01-02.10:00:00.'' @ replicate 4095 CHR ''A'' @ ''.fuzz'']"
proof -
  have a: "WIFSIGNALED 0x8b" using sigsegv_core by simp
  have b: "WTERMSIG 0x8b \<in> {SIGILL, SIGFPE, SIGSEGV, SIGBUS, SIGABRT}" using sigsegv_core by simp
  have "length (newname hfuzz0 fuzzer_long ent ts) \<le> 4095" for ent ts
    using length_snprintf [of PATH_MAX] by (simp add: newname_def PATH_MAX_def)
  moreover have "length (''/out/SIGSEGV.4242.2024-01-02.10:00:00.'' @ replicate 4095 CHR ''A'' @ ''.fuzz'') > 4095"
    by simp
  ultimately have "newname hfuzz0 fuzzer_long ent ts \<noteq>
      ''/out/SIGSEGV.4242.2024-01-02.10:00:00.'' @ replicate 4095 CHR ''A'' @ ''.fuzz''" for ent ts
    by (metis not_le)
  then show ?thesis
    by (simp add: analyze_crash_dsts [OF a b] hfuzz0_def)
qed

section \<open>The launcher's loop\<close>

lemma starts_with_refl: "starts_with s s"
  by (induction s) auto

lemma strstr_self: "strstr ph ph = Some 0"
  by (cases ph) (auto simp add: starts_with_refl)

lemma starts_with_append: "starts_with s needle \<Longrightarrow> \<exists>rest. s = needle @ rest"
  by (induction s needle rule: starts_with.induct) auto

lemma strstr_le: "strstr s needle = Some off \<Longrightarrow> off \<le> length s"
  by (induction s arbitrary: off) (auto split: if_splits)

lemma strstr_decomp: "strstr s needle = Some off \<Longrightarrow> \<exists>rest. s = take off s @ needle @ rest"
proof (induction s arbitrary: off)
  case Nil
  then show ?case by (auto split: if_splits)
next
  case (Cons c cs)
  show ?case
  proof (cases "starts_with (c # cs) needle")
    case True
    with Cons.prems have "off = 0" by simp
    with True starts_with_append show ?thesis by fastforce
  next
    case False
    with Cons.prems obtain k where k: "strstr cs needle = Some k" "off = Suc k" by auto
    from Cons.IH [OF k(1)] obtain rest where "cs = take k cs @ needle @ rest" by blast
    then have "c # cs = take (Suc k) (c # cs) @ needle @ rest" by simp
    with k(2) show ?thesis by blast
  qed
qed

lemma sint_small: "off < 2 ^ 31 \<Longrightarrow> sint (word_of_nat off :: 32 word) = int off"
proof -
  assume a: "off < 2 ^ 31"
  have "signed_take_bit 31 (int off) = int off"
    by (rule signed_take_bit_int_eq_self) (use a in simp_all)
  then show ?thesis by (simp add: signed_of_nat)
qed

lemma splice_arg_fits:
  assumes "strstr arg ph = Some off" and "off + length fname < PATH_MAX"
  shows "splice_arg arg off fname = take off arg @ fname"
proof -
  have "off < 2 ^ 31" using assms(2) by (simp add: PATH_MAX_def)
  then have p: "fmt_prec_s (sint (word_of_nat off :: 32 word)) arg = take off arg"
    by (simp add: sint_small fmt_prec_s_def)
  have "length (take off arg @ fname) < PATH_MAX"
    using assms(2) strstr_le [OF assms(1)] by simp
  then show ?thesis by (simp add: splice_arg_def p snprintf_fits)
qed

text \<open>The pointer that iteration \<open>x\<close> stores in \<^verbatim>\<open>args[x]\<close>.\<close>

lemma args_launch_body:
  "args (launch_body hfuzz ph fname x s) = args s @
     [if \<not> fuzzStdin hfuzz \<and> cmdline hfuzz ! x = ph then Ptr_fileName
      else if writes_argData hfuzz ph x then Ptr_argData else Ptr_cmdline x]"
  by (auto simp add: launch_body_def writes_argData_def spliced_def split: option.splits)

lemma argData_launch_body:
  "argData (launch_body hfuzz ph fname x s) =
     (if writes_argData hfuzz ph x
      then splice_arg (cmdline hfuzz ! x) (the (strstr (cmdline hfuzz ! x) ph)) fname
      else argData s)"
  by (auto simp add: launch_body_def writes_argData_def spliced_def split: option.splits)

lemma launch_loop_step:
  "x < ARGS_MAX \<Longrightarrow> x < length (cmdline hfuzz) \<Longrightarrow>
   launch_loop hfuzz ph fname x s =
     launch_loop hfuzz ph fname (Suc x) (launch_body hfuzz ph fname x s)"
  by (subst launch_loop.simps) simp

lemma launch_loop_stop:
  "\<not> (x < ARGS_MAX \<and> x < length (cmdline hfuzz)) \<Longrightarrow> launch_loop hfuzz ph fname x s = s"
  by (subst launch_loop.simps) auto

lemma args_launch_loop:
  "x \<le> launch_count hfuzz \<Longrightarrow>
   args (launch_loop hfuzz ph fname x s) = args s @
     map (\<lambda>i. if \<not> fuzzStdin hfuzz \<and> cmdline hfuzz ! i = ph then Ptr_fileName
              else if writes_argData hfuzz ph i then Ptr_argData else Ptr_cmdline i)
       [x..<launch_count hfuzz]"
proof (induction hfuzz ph fname x s rule: launch_loop.induct)
  case (1 hfuzz ph fname x s)
  show ?case
  proof (cases "x < ARGS_MAX \<and> x < length (cmdline hfuzz)")
    case True
    then have lt: "x < launch_count hfuzz" by (simp add: launch_count_def)
    then have u: "[x..<launch_count hfuzz] = x # [Suc x..<launch_count hfuzz]"
      by (simp add: upt_conv_Cons)
    have "Suc x \<le> launch_count hfuzz" using lt by simp
    from "1.IH" [OF True this] show ?thesis
      using True by (simp add: launch_loop_step u args_launch_body)
  next
    case False
    with "1.prems" have "x = launch_count hfuzz" by (auto simp add: launch_count_def)
    then show ?thesis unfolding launch_loop_stop [OF False] by simp
  qed
qed

lemma argData_launch_loop_unchanged:
  "(\<forall>j. x \<le> j \<and> j < launch_count hfuzz \<longrightarrow> \<not> writes_argData hfuzz ph j) \<Longrightarrow>
   argData (launch_loop hfuzz ph fname x s) = argData s"
proof (induction hfuzz ph fname x s rule: launch_loop.induct)
  case (1 hfuzz ph fname x s)
  show ?case
  proof (cases "x < ARGS_MAX \<and> x < length (cmdline hfuzz)")
    case True
    then have lt: "x < launch_count hfuzz" by (simp add: launch_count_def)
    have n: "\<not> writes_argData hfuzz ph x" using "1.prems" lt by simp
    have "\<forall>j. Suc x \<le> j \<and> j < launch_count hfuzz \<longrightarrow> \<not> writes_argData hfuzz ph j"
      using "1.prems" by simp
    from "1.IH" [OF True this] show ?thesis
      using True by (simp add: launch_loop_step argData_launch_body n)
  next
    case False
    show ?thesis unfolding launch_loop_stop [OF False] by simp
  qed
qed

lemma argData_launch_loop_last:
  "x \<le> k \<Longrightarrow> k < launch_count hfuzz \<Longrightarrow> writes_argData hfuzz ph k \<Longrightarrow>
   (\<forall>j. k < j \<and> j < launch_count hfuzz \<longrightarrow> \<not> writes_argData hfuzz ph j) \<Longrightarrow>
   argData (launch_loop hfuzz ph fname x s) =
     splice_arg (cmdline hfuzz ! k) (the (strstr (cmdline hfuzz ! k) ph)) fname"
proof (induction hfuzz ph fname x s rule: launch_loop.induct)
  case (1 hfuzz ph fname x s)
  have lt: "x < launch_count hfuzz" using "1.prems" by simp
  then have c: "x < ARGS_MAX \<and> x < length (cmdline hfuzz)" by (simp add: launch_count_def)
  show ?case
  proof (cases "x = k")
    case True
    have "\<forall>j. Suc x \<le> j \<and> j < launch_count hfuzz \<longrightarrow> \<not> writes_argData hfuzz ph j"
      using "1.prems"(4) True by simp
    then have "argData (launch_loop hfuzz ph fname (Suc x) (launch_body hfuzz ph fname x s)) =
        argData (launch_body hfuzz ph fname x s)"
      by (rule argData_launch_loop_unchanged)
    then show ?thesis
      using "1.prems"(3) True c
      by (simp add: launch_loop_step argData_launch_body)
  next
    case False
    then have "Suc x \<le> k" using "1.prems"(1) by simp
    from "1.IH" [OF c this "1.prems"(2,3,4)] show ?thesis
      using c by (simp add: launch_loop_step)
  qed
qed

lemma length_launch_args: "length (launch_args hfuzz ph fname) = launch_count hfuzz"
  by (simp add: launch_args_def Let_def args_launch_loop)

lemma launch_args_nth:
  assumes "i < launch_count hfuzz"
  shows "launch_args hfuzz ph fname ! i =
     (if \<not> fuzzStdin hfuzz \<and> cmdline hfuzz ! i = ph then fname
      else if writes_argData hfuzz ph i
        then argData (launch_loop hfuzz ph fname 0 \<lparr>args = [], argData = []\<rparr>)
        else cmdline hfuzz ! i)"
  using assms by (simp add: launch_args_def Let_def args_launch_loop)

lemma launch_args_stdin:
  assumes "fuzzStdin hfuzz"
  shows "launch_args hfuzz ph fname = take ARGS_MAX (cmdline hfuzz)"
proof (rule nth_equalityI)
  show "length (launch_args hfuzz ph fname) = length (take ARGS_MAX (cmdline hfuzz))"
    by (simp add: length_launch_args launch_count_def)
next
  fix i assume "i < length (launch_args hfuzz ph fname)"
  then have i: "i < launch_count hfuzz" by (simp add: length_launch_args)
  then show "launch_args hfuzz ph fname ! i = take ARGS_MAX (cmdline hfuzz) ! i"
    using assms by (simp add: launch_args_nth writes_argData_def launch_count_def)
qed

lemma launch_args_spliced:
  assumes "i \<le> k" and "k < launch_count hfuzz"
    and "writes_argData hfuzz ph i" and "writes_argData hfuzz ph k"
    and "\<forall>j. k < j \<and> j < launch_count hfuzz \<longrightarrow> \<not> writes_argData hfuzz ph j"
  shows "launch_args hfuzz ph fname ! i =
     splice_arg (cmdline hfuzz ! k) (the (strstr (cmdline hfuzz ! k) ph)) fname"
proof -
  have i: "i < launch_count hfuzz" using assms(1,2) by simp
  have "argData (launch_loop hfuzz ph fname 0 \<lparr>args = [], argData = []\<rparr>) =
      splice_arg (cmdline hfuzz ! k) (the (strstr (cmdline hfuzz ! k) ph)) fname"
    using assms(2,4,5) by (intro argData_launch_loop_last) simp_all
  then show ?thesis
    using assms(3) by (simp add: launch_args_nth [OF i] writes_argData_def spliced_def)
qed

section \<open>Placeholder substitution\<close>

text \<open>
  C5, as the code has it. The loop visits the first \<^verbatim>\<open>ARGS_MAX\<close> (512) arguments of the
  template and hands \<^verbatim>\<open>execvp\<close> one argument for each. With \<^verbatim>\<open>fuzzStdin\<close> set these are
  the template's arguments untouched, the whole template when it has at most 512
  arguments. Otherwise, for a visited argument: equal to the placeholder, it becomes the
  input path; without the placeholder, it is passed unchanged; containing the
  placeholder at offset \<open>off\<close> without being equal to it, it becomes the \<open>off\<close> characters
  before the placeholder followed by the input path, provided that text is shorter than
  \<^verbatim>\<open>PATH_MAX\<close> and no later visited argument is rewritten in the same way.
\<close>

theorem launch_args_substitution:
  "length (launch_args hfuzz ph fname) = min ARGS_MAX (length (cmdline hfuzz)) \<and>
   (fuzzStdin hfuzz \<longrightarrow> launch_args hfuzz ph fname = take ARGS_MAX (cmdline hfuzz)) \<and>
   (fuzzStdin hfuzz \<and> length (cmdline hfuzz) \<le> ARGS_MAX \<longrightarrow>
      launch_args hfuzz ph fname = cmdline hfuzz) \<and>
   (\<not> fuzzStdin hfuzz \<and> i < length (cmdline hfuzz) \<and> i < ARGS_MAX \<longrightarrow>
      (cmdline hfuzz ! i = ph \<longrightarrow> launch_args hfuzz ph fname ! i = fname) \<and>
      (strstr (cmdline hfuzz ! i) ph = None \<longrightarrow>
         launch_args hfuzz ph fname ! i = cmdline hfuzz ! i) \<and>
      (\<forall>off. cmdline hfuzz ! i \<noteq> ph \<and> strstr (cmdline hfuzz ! i) ph = Some off \<and>
          off + length fname < PATH_MAX \<and>
          (\<forall>j. i < j \<and> j < length (cmdline hfuzz) \<and> j < ARGS_MAX \<longrightarrow>
             \<not> spliced ph (cmdline hfuzz ! j)) \<longrightarrow>
          launch_args hfuzz ph fname ! i = take off (cmdline hfuzz ! i) @ fname))"
proof -
  have 1: "length (launch_args hfuzz ph fname) = min ARGS_MAX (length (cmdline hfuzz))"
    by (simp add: length_launch_args launch_count_def)
  have 2: "launch_args hfuzz ph fname = take ARGS_MAX (cmdline hfuzz)" if "fuzzStdin hfuzz"
    using that by (rule launch_args_stdin)
  have 3: "launch_args hfuzz ph fname = cmdline hfuzz"
    if "fuzzStdin hfuzz" and "length (cmdline hfuzz) \<le> ARGS_MAX"
    using that by (simp add: launch_args_stdin)
  have 4: "launch_args hfuzz ph fname ! i = fname"
    if "\<not> fuzzStdin hfuzz" "i < length (cmdline hfuzz)" "i < ARGS_MAX" "cmdline hfuzz ! i = ph"
    using that by (simp add: launch_args_nth launch_count_def)
  have 5: "launch_args hfuzz ph fname ! i = cmdline hfuzz ! i"
    if "\<not> fuzzStdin hfuzz" "i < length (cmdline hfuzz)" "i < ARGS_MAX"
      "strstr (cmdline hfuzz ! i) ph = None"
  proof -
    have "cmdline hfuzz ! i \<noteq> ph" using that(4) strstr_self by force
    then show ?thesis
      using that by (simp add: launch_args_nth launch_count_def writes_argData_def spliced_def)
  qed
  have 6: "launch_args hfuzz ph fname ! i = take off (cmdline hfuzz ! i) @ fname"
    if "\<not> fuzzStdin hfuzz" "i < length (cmdline hfuzz)" "i < ARGS_MAX"
      "cmdline hfuzz ! i \<noteq> ph" "strstr (cmdline hfuzz ! i) ph = Some off"
      "off + length fname < PATH_MAX"
      "\<forall>j. i < j \<and> j < length (cmdline hfuzz) \<and> j < ARGS_MAX \<longrightarrow> \<not> spliced ph (cmdline hfuzz ! j)"
    for off
  proof -
    have w: "writes_argData hfuzz ph i"
      using that(1,4,5) by (simp add: writes_argData_def spliced_def)
    have l: "\<forall>j. i < j \<and> j < launch_count hfuzz \<longrightarrow> \<not> writes_argData hfuzz ph j"
      using that(7) by (simp add: launch_count_def writes_argData_def)
    have "launch_args hfuzz ph fname ! i =
        splice_arg (cmdline hfuzz ! i) (the (strstr (cmdline hfuzz ! i) ph)) fname"
      using that(2,3) w l by (intro launch_args_spliced) (simp_all add: launch_count_def)
    then show ?thesis using that(5,6) by (simp add: splice_arg_fits)
  qed
  show ?thesis using 1 2 3 4 5 6 by blast
qed

theorem launch_args_substitution_witness:
  "\<not> fuzzStdin hfuzz0 \<and> 1 < length (cmdline hfuzz0) \<and> 1 < ARGS_MAX \<and>
   cmdline hfuzz0 ! 1 \<noteq> ''@@'' \<and> strstr (cmdline hfuzz0 ! 1) ''@@'' = Some 5 \<and>
   5 + length ''/tmp/f1'' < PATH_MAX \<and>
   cmdline hfuzz0 ! 0 = ''target'' \<and> strstr (cmdline hfuzz0 ! 0) ''@@'' = None \<and>
   cmdline hfuzz0 ! 2 = ''rest'' \<and> strstr (cmdline hfuzz0 ! 2) ''@@'' = None \<and>
   length (launch_args hfuzz0 ''@@'' ''/tmp/f1'') = 3 \<and>
   launch_args hfuzz0 ''@@'' ''/tmp/f1'' ! 0 = ''target'' \<and>
   launch_args hfuzz0 ''@@'' ''/tmp/f1'' ! 1 = ''--in=/tmp/f1'' \<and>
   launch_args hfuzz0 ''@@'' ''/tmp/f1'' ! 2 = ''rest'' \<and>
   fuzzStdin hfuzz_stdin \<and> length (cmdline hfuzz_stdin) \<le> ARGS_MAX \<and>
   launch_args hfuzz_stdin ''@@'' ''/tmp/f1'' = [''target'', ''--in=@@'', ''rest'']"
proof -
  have c: "cmdline hfuzz0 = [''target'', ''--in=@@'', ''rest'']" "\<not> fuzzStdin hfuzz0"
    by (simp_all add: hfuzz0_def)
  have d: "cmdline hfuzz_stdin = [''target'', ''--in=@@'', ''rest'']" "fuzzStdin hfuzz_stdin"
    by (simp_all add: hfuzz_stdin_def hfuzz0_def)
  have s0: "strstr ''target'' ''@@'' = None" by simp
  have s1: "strstr ''--in=@@'' ''@@'' = Some 5" by simp
  have s2: "strstr ''rest'' ''@@'' = None" by simp
  have last: "\<forall>j. 1 < j \<and> j < length (cmdline hfuzz0) \<and> j < ARGS_MAX \<longrightarrow>
      \<not> spliced ''@@'' (cmdline hfuzz0 ! j)"
  proof (intro allI impI)
    fix j assume "1 < j \<and> j < length (cmdline hfuzz0) \<and> j < ARGS_MAX"
    then have "j = 2" by (simp add: c)
    then show "\<not> spliced ''@@'' (cmdline hfuzz0 ! j)" by (simp add: c spliced_def)
  qed
  have b: "(5::nat) + length ''/tmp/f1'' < PATH_MAX" "(1::nat) < ARGS_MAX" "(2::nat) < ARGS_MAX"
    "(0::nat) < ARGS_MAX" "(3::nat) \<le> ARGS_MAX"
    by (simp_all add: PATH_MAX_def ARGS_MAX_def)
  have n: "length (launch_args hfuzz0 ''@@'' ''/tmp/f1'') = 3"
    using launch_args_substitution [of hfuzz0 "''@@''" "''/tmp/f1''" 0] b
    by (simp add: c)
  have a0: "launch_args hfuzz0 ''@@'' ''/tmp/f1'' ! 0 = ''target''"
    using launch_args_substitution [of hfuzz0 "''@@''" "''/tmp/f1''" 0] b s0
    by (simp add: c)
  have a1: "launch_args hfuzz0 ''@@'' ''/tmp/f1'' ! 1 = ''--in=/tmp/f1''"
    using launch_args_substitution [of hfuzz0 "''@@''" "''/tmp/f1''" 1] b s1 last
    by (simp add: c)
  have a2: "launch_args hfuzz0 ''@@'' ''/tmp/f1'' ! 2 = ''rest''"
    using launch_args_substitution [of hfuzz0 "''@@''" "''/tmp/f1''" 2] b s2
    by (simp add: c)
  have st: "launch_args hfuzz_stdin ''@@'' ''/tmp/f1'' = [''target'', ''--in=@@'', ''rest'']"
    using launch_args_substitution [of hfuzz_stdin "''@@''" "''/tmp/f1''" 0] b
    by (simp add: d)
  show ?thesis
    using n a0 a1 a2 st b s0 s1 s2 by (simp add: c d)
qed

text \<open>
  The claim as stated fails in two ways. A template of 513 arguments with \<^verbatim>\<open>fuzzStdin\<close>
  set is not passed on whole: \<^verbatim>\<open>execvp\<close> receives 512 arguments. And with two arguments
  that contain the placeholder, the first does not keep its own text before the token.
\<close>

theorem launch_args_not_per_argument:
  "fuzzStdin hfuzz_many \<and>
   launch_args hfuzz_many ''@@'' ''/tmp/f1'' \<noteq> cmdline hfuzz_many \<and>
   \<not> fuzzStdin hfuzz_two \<and> cmdline hfuzz_two ! 1 = ''--in=@@'' \<and>
   launch_args hfuzz_two ''@@'' ''/tmp/f1'' ! 1 \<noteq> ''--in=/tmp/f1''"
proof -
  have "length (launch_args hfuzz_many ''@@'' ''/tmp/f1'') = 512"
    by (simp add: length_launch_args launch_count_def ARGS_MAX_def hfuzz_many_def)
  moreover have "length (cmdline hfuzz_many) = 513" by (simp add: hfuzz_many_def)
  ultimately have "length (launch_args hfuzz_many ''@@'' ''/tmp/f1'') \<noteq> length (cmdline hfuzz_many)"
    by simp
  then have m: "launch_args hfuzz_many ''@@'' ''/tmp/f1'' \<noteq> cmdline hfuzz_many"
    by auto
  have t: "launch_args hfuzz_two ''@@'' ''/tmp/f1'' = [''target'', ''--out=/tmp/f1'', ''--out=/tmp/f1'']"
    by (simp add: launch_args_def hfuzz_two_def hfuzz0_def launch_loop.simps launch_body_def
        ARGS_MAX_def splice_arg_def snprintf_def PATH_MAX_def fmt_prec_s_def)
  show ?thesis
    using m by (simp add: t) (simp add: hfuzz_many_def hfuzz_two_def hfuzz0_def)
qed

section \<open>The shared buffer\<close>

text \<open>
  C10, as the code has it. With \<^verbatim>\<open>fuzzStdin\<close> unset, every argument the loop visits (the
  first \<^verbatim>\<open>ARGS_MAX\<close> of the template) that contains the placeholder without being equal to
  it gets the address of the one buffer \<^verbatim>\<open>argData\<close>. So when \<open>j\<close> is the last such argument
  among the visited ones and \<open>i\<close> an earlier one, both positions of the argument vector
  hold the text written for \<open>j\<close>.
\<close>

theorem shared_buffer_holds_last_splice:
  assumes "\<not> fuzzStdin hfuzz"
    and "i < j" and "j < length (cmdline hfuzz)" and "j < ARGS_MAX"
    and "spliced ph (cmdline hfuzz ! i)" and "spliced ph (cmdline hfuzz ! j)"
    and "\<forall>m. j < m \<and> m < length (cmdline hfuzz) \<and> m < ARGS_MAX \<longrightarrow>
           \<not> spliced ph (cmdline hfuzz ! m)"
  shows "launch_args hfuzz ph fname ! i =
           splice_arg (cmdline hfuzz ! j) (the (strstr (cmdline hfuzz ! j) ph)) fname \<and>
         launch_args hfuzz ph fname ! j =
           splice_arg (cmdline hfuzz ! j) (the (strstr (cmdline hfuzz ! j) ph)) fname"
proof -
  have k: "j < launch_count hfuzz" using assms(3,4) by (simp add: launch_count_def)
  have wi: "writes_argData hfuzz ph i" and wj: "writes_argData hfuzz ph j"
    using assms(1,5,6) by (simp_all add: writes_argData_def)
  have l: "\<forall>m. j < m \<and> m < launch_count hfuzz \<longrightarrow> \<not> writes_argData hfuzz ph m"
    using assms(7) by (simp add: launch_count_def writes_argData_def)
  have "i \<le> j" using assms(2) by simp
  from launch_args_spliced [OF this k wi wj l] launch_args_spliced [OF le_refl k wj wj l]
  show ?thesis by simp
qed

theorem shared_buffer_holds_last_splice_witness:
  "\<not> fuzzStdin hfuzz_two \<and> (1::nat) < 2 \<and> 2 < length (cmdline hfuzz_two) \<and> 2 < ARGS_MAX \<and>
   spliced ''@@'' (cmdline hfuzz_two ! 1) \<and> spliced ''@@'' (cmdline hfuzz_two ! 2) \<and>
   cmdline hfuzz_two ! 1 = ''--in=@@'' \<and> cmdline hfuzz_two ! 2 = ''--out=@@'' \<and>
   launch_args hfuzz_two ''@@'' ''/tmp/f1'' ! 1 = ''--out=/tmp/f1'' \<and>
   launch_args hfuzz_two ''@@'' ''/tmp/f1'' ! 2 = ''--out=/tmp/f1''"
proof -
  have c: "cmdline hfuzz_two = [''target'', ''--in=@@'', ''--out=@@'']" "\<not> fuzzStdin hfuzz_two"
    by (simp_all add: hfuzz_two_def hfuzz0_def)
  have h: "(1::nat) < 2" "2 < length (cmdline hfuzz_two)" "2 < ARGS_MAX"
    by (simp_all add: c ARGS_MAX_def)
  have s: "spliced ''@@'' (cmdline hfuzz_two ! 1)" "spliced ''@@'' (cmdline hfuzz_two ! 2)"
    by (simp_all add: c spliced_def)
  have last: "\<forall>m. 2 < m \<and> m < length (cmdline hfuzz_two) \<and> m < ARGS_MAX \<longrightarrow>
      \<not> spliced ''@@'' (cmdline hfuzz_two ! m)"
  proof (intro allI impI)
    fix m assume "2 < m \<and> m < length (cmdline hfuzz_two) \<and> m < ARGS_MAX"
    then have "2 < m \<and> m < 3" by (simp add: c)
    then have False by arith
    then show "\<not> spliced ''@@'' (cmdline hfuzz_two ! m)" ..
  qed
  have v: "splice_arg (cmdline hfuzz_two ! 2) (the (strstr (cmdline hfuzz_two ! 2) ''@@'')) ''/tmp/f1''
      = ''--out=/tmp/f1''"
    by (simp add: c splice_arg_def snprintf_def PATH_MAX_def fmt_prec_s_def)
  note th = shared_buffer_holds_last_splice [OF c(2) h s last, of "''/tmp/f1''", unfolded v]
  show ?thesis
    using th h s c(2) by (simp add: c(1))
qed

text \<open>
  The claim as stated fails for a template longer than \<^verbatim>\<open>ARGS_MAX\<close>: the last argument
  that contains the placeholder is never visited, and the second position of the argument
  vector holds its own text, not the one for that last argument.
\<close>

theorem far_splice_is_not_shared:
  "\<not> fuzzStdin hfuzz_far \<and>
   cmdline hfuzz_far ! 1 = ''--in=@@'' \<and> spliced ''@@'' (cmdline hfuzz_far ! 1) \<and>
   cmdline hfuzz_far ! 513 = ''--out=@@'' \<and> spliced ''@@'' (cmdline hfuzz_far ! 513) \<and>
   length (cmdline hfuzz_far) = 514 \<and>
   length (launch_args hfuzz_far ''@@'' ''/tmp/f1'') = 512 \<and>
   launch_args hfuzz_far ''@@'' ''/tmp/f1'' ! 1 = ''--in=/tmp/f1'' \<and>
   splice_arg (cmdline hfuzz_far ! 513) (the (strstr (cmdline hfuzz_far ! 513) ''@@'')) ''/tmp/f1'' =
     ''--out=/tmp/f1'' \<and>
   launch_args hfuzz_far ''@@'' ''/tmp/f1'' ! 1 \<noteq>
     splice_arg (cmdline hfuzz_far ! 513) (the (strstr (cmdline hfuzz_far ! 513) ''@@'')) ''/tmp/f1''"
proof -
  have c: "cmdline hfuzz_far = [''target'', ''--in=@@''] @ replicate 511 ''a'' @ [''--out=@@'']"
    and f: "\<not> fuzzStdin hfuzz_far"
    by (simp_all add: hfuzz_far_def hfuzz0_def)
  have len: "length (cmdline hfuzz_far) = 514" by (simp add: c)
  have n: "launch_count hfuzz_far = 512" by (simp add: launch_count_def ARGS_MAX_def len)
  have a1: "cmdline hfuzz_far ! 1 = ''--in=@@''" by (simp add: c)
  have a513: "cmdline hfuzz_far ! 513 = ''--out=@@''" by (simp add: c nth_append)
  have mid: "cmdline hfuzz_far ! j = ''a''" if "1 < j" "j < 512" for j
  proof -
    have "j = Suc (Suc (j - 2))" using that(1) by arith
    then obtain m where j: "j = Suc (Suc m)" ..
    have m: "m < 511" using that(2) j by simp
    have "(replicate 511 ''a'' @ [''--out=@@'']) ! m = ''a''"
      using m by (simp add: nth_append)
    then show ?thesis by (simp add: c j)
  qed
  have s1: "spliced ''@@'' (cmdline hfuzz_far ! 1)" unfolding a1 by (simp add: spliced_def)
  have s513: "spliced ''@@'' (cmdline hfuzz_far ! 513)" unfolding a513 by (simp add: spliced_def)
  have w1: "writes_argData hfuzz_far ''@@'' 1" using f s1 by (simp add: writes_argData_def)
  have l: "\<forall>j. 1 < j \<and> j < launch_count hfuzz_far \<longrightarrow> \<not> writes_argData hfuzz_far ''@@'' j"
  proof (intro allI impI)
    fix j assume "1 < j \<and> j < launch_count hfuzz_far"
    then have "cmdline hfuzz_far ! j = ''a''" using mid n by simp
    then show "\<not> writes_argData hfuzz_far ''@@'' j" by (simp add: writes_argData_def spliced_def)
  qed
  have k: "1 < launch_count hfuzz_far" by (simp add: n)
  have own: "splice_arg (cmdline hfuzz_far ! 1) (the (strstr (cmdline hfuzz_far ! 1) ''@@'')) ''/tmp/f1''
      = ''--in=/tmp/f1''"
    unfolding a1 by (simp add: splice_arg_def snprintf_def PATH_MAX_def fmt_prec_s_def)
  have far: "splice_arg (cmdline hfuzz_far ! 513) (the (strstr (cmdline hfuzz_far ! 513) ''@@'')) ''/tmp/f1''
      = ''--out=/tmp/f1''"
    unfolding a513 by (simp add: splice_arg_def snprintf_def PATH_MAX_def fmt_prec_s_def)
  have v: "launch_args hfuzz_far ''@@'' ''/tmp/f1'' ! 1 = ''--in=/tmp/f1''"
    using launch_args_spliced [OF le_refl k w1 w1 l, of "''/tmp/f1''"] by (simp only: own)
  have m: "length (launch_args hfuzz_far ''@@'' ''/tmp/f1'') = 512"
    by (simp add: length_launch_args n)
  have d: "launch_args hfuzz_far ''@@'' ''/tmp/f1'' ! 1 \<noteq>
     splice_arg (cmdline hfuzz_far ! 513) (the (strstr (cmdline hfuzz_far ! 513) ''@@'')) ''/tmp/f1''"
    unfolding v far by simp
  show ?thesis using f a1 s1 a513 s513 len m v far d by blast
qed

end
